theory Spec2Isabelle
  imports Main "HOL-Library.Sublist"
begin

section \<open>Strings as the script uses them\<close>

text \<open>
  The script \<^verbatim>\<open>merge_ows.py\<close> works on Python \<^verbatim>\<open>str\<close> values, sequences of code
  points. They are modelled as \<^typ>\<open>string\<close>: a \<^typ>\<open>char\<close> is a code point below 256
  (ASCII and Latin-1), so text with a code point from 256 on is outside the model.
  All the literals the script compares with are ASCII.

  \<^verbatim>\<open>str.lower\<close> is Python's on these code points: the capitals \<open>A\<close> .. \<open>Z\<close> (65 .. 90) and
  the Latin-1 capitals (192 .. 222 without the multiplication sign 215) move up by 32,
  every other code point stays.
\<close>

definition lower_char :: "char \<Rightarrow> char" where
  "lower_char c =
     (let n = (of_char c :: nat)
      in if (65 \<le> n \<and> n \<le> 90) \<or> (192 \<le> n \<and> n \<le> 222 \<and> n \<noteq> 215)
         then char_of (n + 32) else c)"

text \<open>
  \<^verbatim>\<open>str.title\<close> is applied to the tagger's labels only, which are ASCII. Its two
  ingredients, upper-casing and "is a cased character", are modelled on the ASCII
  letters \<open>A\<close> .. \<open>Z\<close> (65 .. 90) and \<open>a\<close> .. \<open>z\<close> (97 .. 122); what is proved of \<open>title\<close>
  is stated for ASCII strings.
\<close>

definition upper_char :: "char \<Rightarrow> char" where
  "upper_char c =
     (let n = (of_char c :: nat) in if 97 \<le> n \<and> n \<le> 122 then char_of (n - 32) else c)"

definition is_cased :: "char \<Rightarrow> bool" where
  "is_cased c =
     (let n = (of_char c :: nat) in (65 \<le> n \<and> n \<le> 90) \<or> (97 \<le> n \<and> n \<le> 122))"

text \<open>\<^verbatim>\<open>s.lower()\<close>\<close>

definition lower :: "string \<Rightarrow> string" where
  "lower s = map lower_char s"

text \<open>
  \<^verbatim>\<open>s.title()\<close>: a letter that follows a letter is lower-cased, any other letter is
  upper-cased. The flag is "the previous character is cased".
\<close>

fun title_from :: "bool \<Rightarrow> string \<Rightarrow> string" where
  "title_from previous_is_cased [] = []"
| "title_from previous_is_cased (c # cs) =
     (if previous_is_cased then lower_char c else upper_char c) # title_from (is_cased c) cs"

definition title :: "string \<Rightarrow> string" where
  "title s = title_from False s"

text \<open>\<^verbatim>\<open>s.startswith(p)\<close>\<close>

fun startswith :: "string \<Rightarrow> string \<Rightarrow> bool" where
  "startswith s [] = True"
| "startswith [] (p # ps) = False"
| "startswith (c # cs) (p # ps) = (c = p \<and> startswith cs ps)"

text \<open>\<^verbatim>\<open>p in s\<close> on strings: \<open>p\<close> occurs in \<open>s\<close> as a contiguous substring.\<close>

fun str_in :: "string \<Rightarrow> string \<Rightarrow> bool" where
  "str_in p [] = (p = [])"
| "str_in p (c # cs) = (startswith (c # cs) p \<or> str_in p cs)"

text \<open>\<^verbatim>\<open>sep.join(parts)\<close>\<close>

fun join :: "string \<Rightarrow> string list \<Rightarrow> string" where
  "join sep [] = []"
| "join sep [x] = x"
| "join sep (x # y # ys) = x @ sep @ join sep (y # ys)"

text \<open>\<^verbatim>\<open>str(i)\<close> on an integer: its decimal digits, with a minus sign below zero.\<close>

fun str_nat :: "nat \<Rightarrow> string" where
  "str_nat n =
     (if n < 10 then [char_of (48 + n)] else str_nat (n div 10) @ [char_of (48 + n mod 10)])"

declare str_nat.simps [simp del]

definition str_int :: "int \<Rightarrow> string" where
  "str_int i = (if i < 0 then CHR ''-'' # str_nat (nat (- i)) else str_nat (nat i))"

section \<open>The tagging capability and \<^verbatim>\<open>get_pos\<close>\<close>

text \<open>
  \<^verbatim>\<open>nlp\<close> is the loaded spaCy pipeline. It is opaque here: a function from a text to
  the sequence of its tokens, each with its surface text (\<^verbatim>\<open>token.text\<close>), its lemma
  (\<^verbatim>\<open>token.lemma_\<close>) and its coarse label (\<^verbatim>\<open>token.pos_\<close>). Every function that tags
  takes it as its first argument.
\<close>

record token =
  tok_text :: string
  tok_lemma :: string
  tok_pos :: string

type_synonym tagger = "string \<Rightarrow> token list"

text \<open>
  The exceptions of a run: \<^verbatim>\<open>doc[0]\<close> on a document without tokens raises
  \<^verbatim>\<open>IndexError\<close>, and \<^verbatim>\<open>open\<close> on a file that is not there raises
  \<^verbatim>\<open>FileNotFoundError\<close>. Nothing in the script catches either.
\<close>

datatype py_error = IndexError | FileNotFoundError

text \<open>\<^verbatim>\<open>doc[0]\<close>\<close>

definition doc0 :: "token list \<Rightarrow> py_error + token" where
  "doc0 doc = (case doc of [] \<Rightarrow> Inl IndexError | t # _ \<Rightarrow> Inr t)"

text \<open>
  The \<^verbatim>\<open>for token in doc\<close> loop of \<^verbatim>\<open>get_pos\<close>: \<open>Some\<close> is the \<^verbatim>\<open>return\<close> inside the
  loop, \<open>None\<close> is falling out of it.
\<close>

fun scan_doc :: "token list \<Rightarrow> string \<Rightarrow> string \<Rightarrow> string option" where
  "scan_doc [] target_lemma word = None"
| "scan_doc (token # doc) target_lemma word =
     (if lower (tok_lemma token) = target_lemma \<or> lower (tok_text token) = lower word
      then Some (tok_pos token)
      else scan_doc doc target_lemma word)"

definition get_pos :: "tagger \<Rightarrow> string \<Rightarrow> string \<Rightarrow> py_error + string" where
  "get_pos nlp word sentence =
     (if sentence = [] then
        (case doc0 (nlp word) of Inl e \<Rightarrow> Inl e | Inr t \<Rightarrow> Inr (tok_pos t))
      else
        (let doc = nlp sentence in
         case doc0 (nlp word) of
           Inl e \<Rightarrow> Inl e
         | Inr t \<Rightarrow>
             (let target_lemma = lower (tok_lemma t) in
              case scan_doc doc target_lemma word of
                Some p \<Rightarrow> Inr p
              | None \<Rightarrow>
                  (case doc0 (nlp word) of Inl e \<Rightarrow> Inl e | Inr t' \<Rightarrow> Inr (tok_pos t')))))"

section \<open>\<^verbatim>\<open>generate_note\<close>\<close>

text \<open>The canned fragments, in the order in which the rules are written.\<close>

definition phobia_note :: string where
  "phobia_note = ''Suffix '-phobia' denotes an extreme or irrational fear.''"

definition cide_note :: string where
  "cide_note = ''Suffix '-cide' refers to the act of killing (e.g., suicide, homicide).''"

definition cracy_note :: string where
  "cracy_note =
     ''Suffixes like '-cracy' or '-archy' typically refer to forms of government or rule.''"

definition logy_note :: string where
  "logy_note = ''Suffix '-logy' usually means 'the study of'.''"

definition theos_note :: string where
  "theos_note = ''Root 'theos' refers to God.''"

definition vorous_note :: string where
  "vorous_note = ''Suffix '-vorous' indicates feeding habits (e.g., carnivorous).''"

definition ambi_note :: string where
  "ambi_note = ''Prefix 'ambi-' means 'both' or 'around'.''"

definition bene_note :: string where
  "bene_note = ''Prefix 'bene-' means 'good' or 'well'.''"

definition mal_note :: string where
  "mal_note = ''Prefix 'mal-' typically means 'bad' or 'evil'.''"

definition somn_note :: string where
  "somn_note = ''Root 'somnus' relates to sleep.''"

definition bell_note :: string where
  "bell_note = ''Root 'bellum' means war.''"

definition greg_note :: string where
  "greg_note = ''Root 'grex' or 'greg-' refers to a flock or herd.''"

definition greek_note :: string where
  "greek_note = ''This term has its roots in Greek mythology or language.''"

definition latin_note :: string where
  "latin_note = ''Derived from Latin.''"

definition medical_note :: string where
  "medical_note = ''Often used in medical contexts.''"

definition legal_note :: string where
  "legal_note = ''Frequently used in legal terminology.''"

definition egoist_note :: string where
  "egoist_note =
     ''Don't confuse with 'egotist' (someone who talks excessively about themselves).''"

definition immigrant_note :: string where
  "immigrant_note = ''Compare with 'emigrant' (one who leaves a country).''"

definition emigrant_note :: string where
  "emigrant_note = ''Compare with 'immigrant' (one who enters a country).''"

definition stationary_note :: string where
  "stationary_note = ''Not to be confused with 'stationery' (writing materials).''"

definition stationery_note :: string where
  "stationery_note = ''Not to be confused with 'stationary' (not moving).''"

text \<open>\<^verbatim>\<open>if cond: note_parts.append(fragment)\<close>\<close>

definition append_if :: "bool \<Rightarrow> string \<Rightarrow> string list \<Rightarrow> string list" where
  "append_if cond fragment note_parts = (if cond then note_parts @ [fragment] else note_parts)"

text \<open>
  The \<^verbatim>\<open>if\<close> / \<^verbatim>\<open>elif\<close> pair on the origin. The literals keep their capitals, as in
  the script, and are looked for in the lower-cased origin.
\<close>

definition origin_rule :: "string \<Rightarrow> string list \<Rightarrow> string list" where
  "origin_rule origin_lower note_parts =
     (if str_in ''Greek'' origin_lower then note_parts @ [greek_note]
      else if str_in ''Latin'' origin_lower then note_parts @ [latin_note]
      else note_parts)"

text \<open>
  The list \<^verbatim>\<open>note_parts\<close> as it stands when the script reaches the line
  "Combine notes": \<open>parts\<close> is rebound by each statement, in the order of the script.
\<close>

definition note_parts :: "string \<Rightarrow> string \<Rightarrow> string \<Rightarrow> string list" where
  "note_parts word meaning origin =
     (let parts = [];
          word_lower = lower word;
          meaning_lower = lower meaning;
          origin_lower = (if origin \<noteq> [] then lower origin else []);
          parts = append_if (str_in ''phobia'' word_lower) phobia_note parts;
          parts = append_if (str_in ''cide'' word_lower) cide_note parts;
          parts = append_if (str_in ''cracy'' word_lower \<or> str_in ''arch'' word_lower)
                    cracy_note parts;
          parts = append_if (str_in ''logy'' word_lower) logy_note parts;
          parts = append_if (str_in ''theist'' word_lower \<or> str_in ''theism'' word_lower)
                    theos_note parts;
          parts = append_if (str_in ''vorous'' word_lower) vorous_note parts;
          parts = append_if (str_in ''ambi'' word_lower) ambi_note parts;
          parts = append_if (str_in ''bene'' word_lower) bene_note parts;
          parts = append_if (str_in ''mal'' word_lower \<and> \<not> startswith word_lower ''male'')
                    mal_note parts;
          parts = append_if (str_in ''somn'' word_lower) somn_note parts;
          parts = append_if (str_in ''bell'' word_lower \<and> str_in ''war'' meaning_lower)
                    bell_note parts;
          parts = append_if (str_in ''greg'' word_lower) greg_note parts;
          parts = origin_rule origin_lower parts;
          parts = append_if (str_in ''med.'' meaning_lower \<or> str_in ''medicine'' meaning_lower
                               \<or> str_in ''disease'' meaning_lower)
                    medical_note parts;
          parts = append_if (str_in ''law'' meaning_lower \<or> str_in ''legal'' meaning_lower)
                    legal_note parts;
          parts = append_if (word_lower = ''egoist'') egoist_note parts;
          parts = append_if (word_lower = ''immigrant'') immigrant_note parts;
          parts = append_if (word_lower = ''emigrant'') emigrant_note parts;
          parts = append_if (str_in ''stationary'' word_lower) stationary_note parts;
          parts = append_if (str_in ''stationery'' word_lower) stationery_note parts
      in parts)"

text \<open>The whole function: the parts, and the last three lines of the script.\<close>

definition generate_note :: "string \<Rightarrow> string \<Rightarrow> string \<Rightarrow> string" where
  "generate_note word meaning origin =
     (let parts = note_parts word meaning origin
      in if parts \<noteq> [] then join '' '' parts else [])"

section \<open>\<^verbatim>\<open>process_file\<close>\<close>

text \<open>
  What \<^verbatim>\<open>json.load\<close> returns for an input file: a mapping (in its iteration order,
  as an association list) whose values are lists of records or something else, a
  list of records, or any other JSON value.
\<close>

datatype 'a page = PageList "'a list" | PageOther

datatype 'a parsed = Dict "(string \<times> 'a page) list" | FlatList "'a list" | OtherJson

text \<open>The \<^verbatim>\<open>for page_num, items in data.items()\<close> loop, which extends \<^verbatim>\<open>all_words\<close>.\<close>

fun extend_pages :: "(string \<times> 'a page) list \<Rightarrow> 'a list \<Rightarrow> 'a list" where
  "extend_pages [] all_words = all_words"
| "extend_pages ((page_num, PageList items) # rest) all_words =
     extend_pages rest (all_words @ items)"
| "extend_pages ((page_num, PageOther) # rest) all_words = extend_pages rest all_words"

definition flatten :: "'a parsed \<Rightarrow> 'a list" where
  "flatten data =
     (case data of
        Dict kvs \<Rightarrow> extend_pages kvs []
      | FlatList xs \<Rightarrow> xs
      | OtherJson \<Rightarrow> [])"

text \<open>
  A word record of an input file. Each field the script reads with
  \<^verbatim>\<open>item.get(key, default)\<close> is optional: \<open>None\<close> is a key that is missing. The fields
  that are present have the types the input files give them.
\<close>

record word_record =
  rec_word :: "string option"
  rec_meaning_en :: "string option"
  rec_meaning_hi :: "string option"
  rec_usage_sentences :: "string list option"
  rec_origin :: "string option"

text \<open>\<^verbatim>\<open>item.get(key, default)\<close>\<close>

definition get_or :: "'a option \<Rightarrow> 'a \<Rightarrow> 'a" where
  "get_or field dflt = (case field of None \<Rightarrow> dflt | Some v \<Rightarrow> v)"

record source_info =
  pdfName :: string
  examYear :: int

record properties =
  prop_difficulty :: string
  prop_status :: string

record content =
  content_id :: int
  content_pos :: string
  content_word :: string
  content_meaning_en :: string
  content_meaning_hi :: string
  content_usage_sentences :: "string list"
  content_note :: string
  content_origin :: string

record output_entry =
  entry_id :: string
  entry_sourceInfo :: source_info
  entry_properties :: properties
  entry_content :: content

text \<open>\<^verbatim>\<open>pos_map.get(pos, pos.title())\<close>\<close>

definition pos_map :: "(string \<times> string) list" where
  "pos_map =
     [(''NOUN'', ''Noun''), (''VERB'', ''Verb''), (''ADJ'', ''Adjective''), (''ADV'', ''Adverb''),
      (''PROPN'', ''Proper Noun''), (''PRON'', ''Pronoun'')]"

definition map_pos :: "string \<Rightarrow> string" where
  "map_pos pos = (case map_of pos_map pos of Some full \<Rightarrow> full | None \<Rightarrow> title pos)"

text \<open>\<^verbatim>\<open>usage_sentences[0] if usage_sentences else ""\<close>\<close>

definition first_sentence_of :: "string list \<Rightarrow> string" where
  "first_sentence_of usage_sentences = (case usage_sentences of [] \<Rightarrow> [] | s # _ \<Rightarrow> s)"

text \<open>The body of the \<^verbatim>\<open>for item in all_words\<close> loop, up to \<^verbatim>\<open>new_item\<close>.\<close>

definition process_item ::
  "tagger \<Rightarrow> string \<Rightarrow> int \<Rightarrow> word_record \<Rightarrow> py_error + output_entry" where
  "process_item nlp difficulty current_id item =
     (let word = get_or (rec_word item) [];
          meaning = get_or (rec_meaning_en item) [];
          usage_sentences = get_or (rec_usage_sentences item) [];
          origin = get_or (rec_origin item) [];
          first_sentence = first_sentence_of usage_sentences
      in case get_pos nlp word first_sentence of
           Inl e \<Rightarrow> Inl e
         | Inr pos \<Rightarrow>
             (let note = generate_note word meaning origin;
                  pos' = map_pos pos
              in Inr \<lparr>entry_id = str_int current_id,
                      entry_sourceInfo = \<lparr>pdfName = ''Blackbook'', examYear = 2025\<rparr>,
                      entry_properties = \<lparr>prop_difficulty = difficulty, prop_status = ''Active''\<rparr>,
                      entry_content =
                        \<lparr>content_id = current_id,
                         content_pos = pos',
                         content_word = word,
                         content_meaning_en = meaning,
                         content_meaning_hi = get_or (rec_meaning_hi item) [],
                         content_usage_sentences = usage_sentences,
                         content_note = note,
                         content_origin = origin\<rparr>\<rparr>))"

text \<open>
  The \<^verbatim>\<open>for item in all_words\<close> loop with its two variables \<^verbatim>\<open>processed_items\<close> and
  \<^verbatim>\<open>current_id\<close>. An exception in the body ends the loop and the run.
\<close>

fun process_items ::
  "tagger \<Rightarrow> string \<Rightarrow> word_record list \<Rightarrow> output_entry list \<Rightarrow> int
     \<Rightarrow> py_error + (output_entry list \<times> int)" where
  "process_items nlp difficulty [] processed_items current_id =
     Inr (processed_items, current_id)"
| "process_items nlp difficulty (item # all_words) processed_items current_id =
     (case process_item nlp difficulty current_id item of
        Inl e \<Rightarrow> Inl e
      | Inr new_item \<Rightarrow>
          process_items nlp difficulty all_words (processed_items @ [new_item]) (current_id + 1))"

text \<open>
  The files of the working directory: the parsed content of each file that is there.
\<close>

type_synonym files = "string \<Rightarrow> word_record parsed option"

definition process_file ::
  "tagger \<Rightarrow> files \<Rightarrow> string \<Rightarrow> string \<Rightarrow> int \<Rightarrow> py_error + (output_entry list \<times> int)" where
  "process_file nlp fs filepath difficulty start_id =
     (case fs filepath of
        None \<Rightarrow> Inl FileNotFoundError
      | Some data \<Rightarrow> process_items nlp difficulty (flatten data) [] start_id)"

section \<open>\<^verbatim>\<open>main\<close>\<close>

definition files_map :: "(string \<times> string) list" where
  "files_map =
     [(''easy-ows.json'', ''Easy''), (''moderate-ows.json'', ''Medium''), (''hard-ows.json'', ''Hard'')]"

text \<open>
  The loop over \<^verbatim>\<open>files_map\<close> with \<^verbatim>\<open>final_data\<close> and \<^verbatim>\<open>global_id_counter\<close>. The
  result is the list that \<^verbatim>\<open>main\<close> writes to \<^verbatim>\<open>final_ows.json\<close>.
\<close>

fun main_loop ::
  "tagger \<Rightarrow> files \<Rightarrow> (string \<times> string) list \<Rightarrow> output_entry list \<Rightarrow> int
     \<Rightarrow> py_error + output_entry list" where
  "main_loop nlp fs [] final_data global_id_counter = Inr final_data"
| "main_loop nlp fs ((filepath, difficulty) # rest) final_data global_id_counter =
     (case process_file nlp fs filepath difficulty global_id_counter of
        Inl e \<Rightarrow> Inl e
      | Inr (items, next_id) \<Rightarrow> main_loop nlp fs rest (final_data @ items) next_id)"

definition main :: "tagger \<Rightarrow> files \<Rightarrow> py_error + output_entry list" where
  "main nlp fs = main_loop nlp fs files_map [] 1"

section \<open>Auxiliary definitions\<close>

text \<open>
  The rules of \<^verbatim>\<open>generate_note\<close> as a table, one row for each \<^verbatim>\<open>append\<close> in the
  order of the statements: the condition under which the row's fragment is appended,
  and the fragment. The \<^verbatim>\<open>elif\<close> row carries the negation of the \<^verbatim>\<open>if\<close> before it.
\<close>

definition note_rules :: "string \<Rightarrow> string \<Rightarrow> string \<Rightarrow> (bool \<times> string) list" where
  "note_rules word meaning origin =
     (let word_lower = lower word;
          meaning_lower = lower meaning;
          origin_lower = (if origin \<noteq> [] then lower origin else [])
      in
       [(str_in ''phobia'' word_lower, phobia_note),
        (str_in ''cide'' word_lower, cide_note),
        (str_in ''cracy'' word_lower \<or> str_in ''arch'' word_lower, cracy_note),
        (str_in ''logy'' word_lower, logy_note),
        (str_in ''theist'' word_lower \<or> str_in ''theism'' word_lower, theos_note),
        (str_in ''vorous'' word_lower, vorous_note),
        (str_in ''ambi'' word_lower, ambi_note),
        (str_in ''bene'' word_lower, bene_note),
        (str_in ''mal'' word_lower \<and> \<not> startswith word_lower ''male'', mal_note),
        (str_in ''somn'' word_lower, somn_note),
        (str_in ''bell'' word_lower \<and> str_in ''war'' meaning_lower, bell_note),
        (str_in ''greg'' word_lower, greg_note),
        (str_in ''Greek'' origin_lower, greek_note),
        (\<not> str_in ''Greek'' origin_lower \<and> str_in ''Latin'' origin_lower, latin_note),
        (str_in ''med.'' meaning_lower \<or> str_in ''medicine'' meaning_lower
           \<or> str_in ''disease'' meaning_lower, medical_note),
        (str_in ''law'' meaning_lower \<or> str_in ''legal'' meaning_lower, legal_note),
        (word_lower = ''egoist'', egoist_note),
        (word_lower = ''immigrant'', immigrant_note),
        (word_lower = ''emigrant'', emigrant_note),
        (str_in ''stationary'' word_lower, stationary_note),
        (str_in ''stationery'' word_lower, stationery_note)])"

text \<open>The fragments of the table, in its order.\<close>

definition all_notes :: "string list" where
  "all_notes =
     [phobia_note, cide_note, cracy_note, logy_note, theos_note, vorous_note, ambi_note,
      bene_note, mal_note, somn_note, bell_note, greg_note, greek_note, latin_note,
      medical_note, legal_note, egoist_note, immigrant_note, emigrant_note, stationary_note,
      stationery_note]"

text \<open>The number that a string of decimal digits denotes; it reads \<open>str_nat\<close> back.\<close>

definition digits_value :: "string \<Rightarrow> nat" where
  "digits_value s = foldl (\<lambda>acc c. 10 * acc + (of_char c - 48)) 0 s"

text \<open>
  A small tagger for the concrete runs below. It knows the sentence
  "I am running fast" and the word "running", returns no token for the empty text,
  and tags any other text as one noun whose lemma is the lower-cased text.
\<close>

definition sample_nlp :: tagger where
  "sample_nlp s =
     (if s = [] then []
      else if s = ''I am running fast'' then
        [\<lparr>tok_text = ''I'', tok_lemma = ''I'', tok_pos = ''PRON''\<rparr>,
         \<lparr>tok_text = ''am'', tok_lemma = ''be'', tok_pos = ''AUX''\<rparr>,
         \<lparr>tok_text = ''running'', tok_lemma = ''run'', tok_pos = ''VERB''\<rparr>,
         \<lparr>tok_text = ''fast'', tok_lemma = ''fast'', tok_pos = ''ADV''\<rparr>]
      else if s = ''running'' then
        [\<lparr>tok_text = ''running'', tok_lemma = ''run'', tok_pos = ''VERB''\<rparr>]
      else [\<lparr>tok_text = s, tok_lemma = lower s, tok_pos = ''NOUN''\<rparr>])"


text \<open>Sample records and sample working directories for the concrete runs.\<close>

definition ambitious_record :: word_record where
  "ambitious_record =
     \<lparr>rec_word = Some ''ambitious'', rec_meaning_en = Some ''having strong desire'',
      rec_meaning_hi = None, rec_usage_sentences = None, rec_origin = Some ''Latin''\<rparr>"

definition running_record :: word_record where
  "running_record =
     \<lparr>rec_word = Some ''Running'', rec_meaning_en = Some ''moving fast on foot'',
      rec_meaning_hi = None, rec_usage_sentences = Some [''I am running fast''],
      rec_origin = None\<rparr>"

definition egoist_record :: word_record where
  "egoist_record =
     \<lparr>rec_word = Some ''Egoist'', rec_meaning_en = None,
      rec_meaning_hi = None, rec_usage_sentences = Some [[], ''He is an egoist''],
      rec_origin = Some ''Greek/Latin hybrid''\<rparr>"

definition no_word_record :: word_record where
  "no_word_record =
     \<lparr>rec_word = None, rec_meaning_en = Some ''having strong desire'',
      rec_meaning_hi = None, rec_usage_sentences = None, rec_origin = None\<rparr>"

definition ambitious_files :: files where
  "ambitious_files filepath =
     (if filepath = ''easy-ows.json'' then Some (Dict [(''1'', PageList [ambitious_record])])
      else if filepath = ''moderate-ows.json'' then Some (Dict [])
      else if filepath = ''hard-ows.json'' then Some (Dict [])
      else None)"

definition sample_files :: files where
  "sample_files filepath =
     (if filepath = ''easy-ows.json'' then
        Some (Dict [(''1'', PageList [ambitious_record, running_record]), (''2'', PageOther),
                    (''3'', PageList [egoist_record])])
      else if filepath = ''moderate-ows.json'' then Some (FlatList [running_record])
      else if filepath = ''hard-ows.json'' then Some OtherJson
      else None)"

definition no_word_files :: files where
  "no_word_files filepath =
     (if filepath = ''easy-ows.json'' then Some (FlatList [no_word_record])
      else if filepath = ''moderate-ows.json'' then Some (FlatList [])
      else if filepath = ''hard-ows.json'' then Some (FlatList [])
      else None)"



section \<open>Strings\<close>

lemma startswith_iff_prefix: "startswith s p \<longleftrightarrow> prefix p s"
  by (induction s p rule: startswith.induct) auto

lemma str_in_iff_sublist: "str_in p s \<longleftrightarrow> sublist p s"
  by (induction s) (auto simp: startswith_iff_prefix sublist_Cons_right)

lemma lower_char_not_upper: "\<not> (65 \<le> (of_char (lower_char c) :: nat) \<and> (of_char (lower_char c) :: nat) \<le> 90)"
  unfolding lower_char_def Let_def by (auto simp: take_bit_eq_mod)

lemma lower_char_idem: "lower_char (lower_char c) = lower_char c"
  unfolding lower_char_def Let_def by (auto simp: char_of_eq_iff take_bit_eq_mod)

lemma lower_idem: "lower (lower s) = lower s"
  by (simp add: lower_def lower_char_idem)

lemma lower_has_no_capital:
  assumes "65 \<le> (of_char c :: nat)" "(of_char c :: nat) \<le> 90"
  shows "c \<notin> set (lower s)"
  using assms lower_char_not_upper by (auto simp: lower_def)

lemma capital_literal_not_in_lower:
  assumes "x \<in> set p" "65 \<le> (of_char x :: nat)" "(of_char x :: nat) \<le> 90"
  shows "\<not> str_in p (lower s)"
proof
  assume "str_in p (lower s)"
  then have "set p \<subseteq> set (lower s)"
    by (simp add: str_in_iff_sublist set_mono_sublist)
  with assms(1) have "x \<in> set (lower s)" by blast
  with lower_has_no_capital [OF assms(2,3)] show False by blast
qed

lemma no_Greek: "\<not> str_in ''Greek'' (lower s)"
  by (rule capital_literal_not_in_lower [of "CHR ''G''"]) simp_all

lemma no_Latin: "\<not> str_in ''Latin'' (lower s)"
  by (rule capital_literal_not_in_lower [of "CHR ''L''"]) simp_all

lemma origin_rule_lower: "origin_rule (if origin \<noteq> [] then lower origin else []) ps = ps"
  using no_Greek [of origin] no_Latin [of origin] by (simp add: origin_rule_def)

section \<open>The note rules\<close>

lemmas note_defs =
  phobia_note_def cide_note_def cracy_note_def logy_note_def theos_note_def vorous_note_def
  ambi_note_def bene_note_def mal_note_def somn_note_def bell_note_def greg_note_def
  greek_note_def latin_note_def medical_note_def legal_note_def egoist_note_def
  immigrant_note_def emigrant_note_def stationary_note_def stationery_note_def

lemma append_if_start: "append_if c f [] = map snd (filter fst [(c, f)])"
  by (simp add: append_if_def)

lemma append_if_step:
  "append_if c f (map snd (filter fst rs)) = map snd (filter fst (rs @ [(c, f)]))"
  by (simp add: append_if_def)

lemma origin_rule_step:
  "origin_rule ol (map snd (filter fst rs)) =
     map snd (filter fst (rs @ [(str_in ''Greek'' ol, greek_note),
                                (\<not> str_in ''Greek'' ol \<and> str_in ''Latin'' ol, latin_note)]))"
  by (simp add: origin_rule_def)

lemma note_parts_table: "note_parts w m og = map snd (filter fst (note_rules w m og))"
  unfolding note_parts_def note_rules_def Let_def
  by (simp only: append_if_start append_if_step origin_rule_step append.simps)

lemma note_rules_fragments: "map snd (note_rules w m og) = all_notes"
  by (simp add: note_rules_def all_notes_def Let_def)

lemma all_notes_distinct: "distinct all_notes"
  unfolding all_notes_def by (simp add: note_defs)

lemma note_parts_subseq: "subseq (note_parts w m og) all_notes"
proof -
  have "subseq (map snd (filter fst (note_rules w m og))) (map snd (note_rules w m og))"
    by (rule subseq_map) simp
  then show ?thesis by (simp add: note_parts_table note_rules_fragments)
qed

lemma in_set_append_if:
  "x \<in> set (append_if c f ps) \<longleftrightarrow> (c \<and> x = f) \<or> x \<in> set ps"
  by (auto simp: append_if_def)

lemma in_set_origin_rule:
  "x \<in> set (origin_rule ol ps) \<longleftrightarrow>
     (str_in ''Greek'' ol \<and> x = greek_note) \<or>
     (\<not> str_in ''Greek'' ol \<and> str_in ''Latin'' ol \<and> x = latin_note) \<or> x \<in> set ps"
  by (auto simp: origin_rule_def)

section \<open>Tagging and the item loop\<close>

lemma doc0_Inr_iff: "doc0 doc = Inr t \<longleftrightarrow> (\<exists>ts. doc = t # ts)"
  by (cases doc) (auto simp: doc0_def)

lemma doc0_Inl_iff: "doc0 doc = Inl e \<longleftrightarrow> doc = [] \<and> e = IndexError"
  by (cases doc) (auto simp: doc0_def)

lemma scan_doc_find:
  "scan_doc doc target_lemma word =
     map_option tok_pos
       (find (\<lambda>tok. lower (tok_lemma tok) = target_lemma \<or> lower (tok_text tok) = lower word) doc)"
  by (induction doc) auto

lemma get_pos_no_token: "nlp word = [] \<Longrightarrow> get_pos nlp word sentence = Inl IndexError"
  by (simp add: get_pos_def doc0_def Let_def)

lemma get_pos_token:
  assumes "nlp word = isolated # others"
  shows "get_pos nlp word sentence =
     Inr (if sentence = [] then tok_pos isolated
          else case find (\<lambda>tok. lower (tok_lemma tok) = lower (tok_lemma isolated)
                               \<or> lower (tok_text tok) = lower word) (nlp sentence) of
                 Some tok \<Rightarrow> tok_pos tok
               | None \<Rightarrow> tok_pos isolated)"
  using assms by (simp add: get_pos_def doc0_def Let_def scan_doc_find split: option.splits)

lemma get_pos_succeeds_iff: "(\<exists>p. get_pos nlp word sentence = Inr p) \<longleftrightarrow> nlp word \<noteq> []"
proof (cases "nlp word")
  case Nil
  then show ?thesis by (simp add: get_pos_no_token)
next
  case (Cons t ts)
  then show ?thesis by (simp add: get_pos_token)
qed

lemma process_item_Inr:
  assumes "process_item nlp difficulty current_id item = Inr e"
  shows "entry_id e = str_int current_id"
    and "content_id (entry_content e) = current_id"
    and "prop_difficulty (entry_properties e) = difficulty"
    and "content_word (entry_content e) = get_or (rec_word item) []"
  using assms by (auto simp: process_item_def Let_def split: sum.splits)

lemma process_item_succeeds_iff:
  "(\<exists>e. process_item nlp difficulty current_id item = Inr e) \<longleftrightarrow>
     nlp (get_or (rec_word item) []) \<noteq> []"
proof -
  have "(\<exists>e. process_item nlp difficulty current_id item = Inr e) \<longleftrightarrow>
        (\<exists>p. get_pos nlp (get_or (rec_word item) [])
                (first_sentence_of (get_or (rec_usage_sentences item) [])) = Inr p)"
    by (auto simp: process_item_def Let_def split: sum.splits)
  then show ?thesis by (simp add: get_pos_succeeds_iff)
qed

lemma process_items_Inr:
  assumes "process_items nlp difficulty all_words processed_items current_id = Inr (out, next_id)"
  shows "\<exists>new. out = processed_items @ new
           \<and> next_id = current_id + int (length all_words)
           \<and> length new = length all_words
           \<and> map entry_id new = map str_int [current_id..next_id - 1]
           \<and> map (\<lambda>e. content_id (entry_content e)) new = [current_id..next_id - 1]
           \<and> map (\<lambda>e. prop_difficulty (entry_properties e)) new
                 = replicate (length all_words) difficulty
           \<and> map (\<lambda>e. content_word (entry_content e)) new
                 = map (\<lambda>item. get_or (rec_word item) []) all_words"
  using assms
proof (induction all_words arbitrary: processed_items current_id)
  case Nil
  then show ?case by simp
next
  case (Cons item all_words)
  from Cons.prems obtain e where
    e: "process_item nlp difficulty current_id item = Inr e"
    and rest: "process_items nlp difficulty all_words (processed_items @ [e]) (current_id + 1)
                 = Inr (out, next_id)"
    by (auto split: sum.splits)
  from Cons.IH [OF rest] obtain new where
    new: "out = (processed_items @ [e]) @ new"
      "next_id = current_id + 1 + int (length all_words)"
      "length new = length all_words"
      "map entry_id new = map str_int [current_id + 1..next_id - 1]"
      "map (\<lambda>e. content_id (entry_content e)) new = [current_id + 1..next_id - 1]"
      "map (\<lambda>e. prop_difficulty (entry_properties e)) new
          = replicate (length all_words) difficulty"
      "map (\<lambda>e. content_word (entry_content e)) new
          = map (\<lambda>item. get_or (rec_word item) []) all_words"
    by blast
  have range: "[current_id..next_id - 1] = current_id # [current_id + 1..next_id - 1]"
    using new(2) by (simp add: upto_rec1)
  show ?case
  proof (intro exI [of _ "e # new"] conjI)
    show "out = processed_items @ e # new" using new(1) by simp
    show "next_id = current_id + int (length (item # all_words))" using new(2) by simp
    show "length (e # new) = length (item # all_words)" using new(3) by simp
    show "map entry_id (e # new) = map str_int [current_id..next_id - 1]"
      using new(4) process_item_Inr(1) [OF e] by (simp add: range)
    show "map (\<lambda>e. content_id (entry_content e)) (e # new) = [current_id..next_id - 1]"
      using new(5) process_item_Inr(2) [OF e] by (simp add: range)
    show "map (\<lambda>e. prop_difficulty (entry_properties e)) (e # new)
            = replicate (length (item # all_words)) difficulty"
      using new(6) process_item_Inr(3) [OF e] by simp
    show "map (\<lambda>e. content_word (entry_content e)) (e # new)
            = map (\<lambda>item. get_or (rec_word item) []) (item # all_words)"
      using new(7) process_item_Inr(4) [OF e] by simp
  qed
qed

lemma process_items_succeeds_iff:
  "(\<exists>r. process_items nlp difficulty all_words processed_items current_id = Inr r) \<longleftrightarrow>
     (\<forall>item \<in> set all_words. nlp (get_or (rec_word item) []) \<noteq> [])"
proof (induction all_words arbitrary: processed_items current_id)
  case Nil
  then show ?case by simp
next
  case (Cons item all_words)
  show ?case
  proof (cases "process_item nlp difficulty current_id item")
    case (Inl err)
    with process_item_succeeds_iff [of nlp difficulty current_id item]
    show ?thesis by simp
  next
    case (Inr e)
    with process_item_succeeds_iff [of nlp difficulty current_id item]
    have "nlp (get_or (rec_word item) []) \<noteq> []" by auto
    with Inr Cons.IH [of "processed_items @ [e]" "current_id + 1"]
    show ?thesis by simp
  qed
qed

section \<open>Identifiers\<close>

lemma digits_value_str_nat: "digits_value (str_nat n) = n"
proof (induction n rule: str_nat.induct)
  case (1 n)
  show ?case
  proof (cases "n < 10")
    case True
    then show ?thesis by (subst str_nat.simps) (simp add: digits_value_def)
  next
    case False
    with "1" have "digits_value (str_nat (n div 10)) = n div 10" by simp
    moreover have "(of_char (char_of (48 + n mod 10)) :: nat) = 48 + n mod 10"
      by (simp add: of_char_of)
    ultimately show ?thesis
      using False by (subst str_nat.simps) (simp add: digits_value_def)
  qed
qed

lemma str_nat_inj: "str_nat a = str_nat b \<Longrightarrow> a = b"
  by (metis digits_value_str_nat)

lemma str_int_inj_on_nonneg: "inj_on str_int {0..}"
  by (rule inj_onI) (auto simp: str_int_def dest: str_nat_inj)

lemma distinct_str_int_upto: "0 \<le> i \<Longrightarrow> distinct (map str_int [i..j])"
  by (rule distinct_map [THEN iffD2]) (auto intro: inj_on_subset [OF str_int_inj_on_nonneg])

lemma upto_append:
  assumes "i \<le> j" "j \<le> k + 1"
  shows "[i..k] = [i..j - 1] @ [j..k]"
proof (cases "j \<le> k")
  case True
  with assms(1) show ?thesis by (simp add: upto_split1)
next
  case False
  with assms(2) have "j = k + 1" by simp
  then show ?thesis by simp
qed

section \<open>Flattening and joining\<close>

lemma extend_pages_concat:
  "extend_pages kvs all_words =
     all_words @ concat (map (\<lambda>(page_num, items). case items of PageList xs \<Rightarrow> xs | PageOther \<Rightarrow> []) kvs)"
  by (induction kvs all_words rule: extend_pages.induct) simp_all

lemma join_member_sublist: "x \<in> set xs \<Longrightarrow> sublist x (join sep xs)"
proof (induction sep xs rule: join.induct)
  case (1 sep)
  then show ?case by simp
next
  case (2 sep y)
  then show ?case by simp
next
  case (3 sep y z zs)
  show ?case
  proof (cases "x = y")
    case True
    then show ?thesis by simp
  next
    case False
    with 3 have "sublist x (join sep (z # zs))" by simp
    then have "sublist x ((y @ sep) @ join sep (z # zs))"
      by (rule sublist_order.order_trans) (simp del: append_assoc)
    then show ?thesis by simp
  qed
qed

lemma sublist_join_space:
  assumes "CHR '' '' \<notin> set p" "p \<noteq> []"
  shows "sublist p (join '' '' xs) \<Longrightarrow> \<exists>x \<in> set xs. sublist p x"
proof (induction "'' ''" xs rule: join.induct)
  case 1
  with assms(2) show ?case by simp
next
  case (2 x)
  then show ?case by simp
next
  case (3 x y ys)
  let ?rest = "join '' '' (y # ys)"
  from 3(2) have "sublist p (x @ (CHR '' '' # ?rest))" by simp
  then consider "sublist p x" | "sublist p (CHR '' '' # ?rest)"
    | p1 p2 where "p = p1 @ p2" "suffix p1 x" "prefix p2 (CHR '' '' # ?rest)"
    by (auto simp: sublist_append)
  then show ?case
  proof cases
    case 1
    then show ?thesis by auto
  next
    case 2
    then have "prefix p (CHR '' '' # ?rest) \<or> sublist p ?rest"
      by (simp add: sublist_Cons_right)
    moreover have "\<not> prefix p (CHR '' '' # ?rest)"
      using assms by (cases p) (auto simp: prefix_Cons)
    ultimately have "sublist p ?rest" by blast
    with 3(1) show ?thesis by auto
  next
    case 3
    show ?thesis
    proof (cases p2)
      case Nil
      with 3 have "suffix p x" by simp
      then show ?thesis by auto
    next
      case (Cons c cs)
      with 3(3) have "c = CHR '' ''" by (simp add: prefix_Cons)
      with Cons 3(1) assms(1) show ?thesis by simp
    qed
  qed
qed

section \<open>What the note holds\<close>

lemma generate_note_join: "generate_note w m og = join '' '' (note_parts w m og)"
  by (simp add: generate_note_def Let_def)

lemma emitted_in_note: "f \<in> set (note_parts w m og) \<Longrightarrow> sublist f (generate_note w m og)"
  by (simp add: generate_note_join join_member_sublist)

lemma note_parts_subset: "set (note_parts w m og) \<subseteq> set all_notes"
proof -
  have "set (map snd (filter fst (note_rules w m og))) \<subseteq> set (map snd (note_rules w m og))"
    by auto
  then show ?thesis by (simp only: note_parts_table note_rules_fragments)
qed

lemma mal_iff: "mal_note \<in> set (note_parts w m og) \<longleftrightarrow>
   (str_in ''mal'' (lower w) \<and> \<not> startswith (lower w) ''male'')"
  unfolding note_parts_def Let_def
  by (simp add: in_set_append_if in_set_origin_rule note_defs)

lemma mal_marker: "x \<in> set all_notes \<Longrightarrow> sublist ''mal-'' x \<Longrightarrow> x = mal_note"
proof -
  have "list_all (\<lambda>x. sublist ''mal-'' x \<longrightarrow> x = mal_note) all_notes"
    by code_simp
  then show "x \<in> set all_notes \<Longrightarrow> sublist ''mal-'' x \<Longrightarrow> x = mal_note"
    by (simp add: list_all_iff)
qed

lemma mal_note_in_note:
  assumes "sublist mal_note (generate_note w m og)"
  shows "mal_note \<in> set (note_parts w m og)"
proof -
  have "sublist ''mal-'' mal_note" unfolding mal_note_def by code_simp
  with assms have "sublist ''mal-'' (join '' '' (note_parts w m og))"
    unfolding generate_note_join by (rule sublist_order.order_trans [rotated])
  then obtain x where x: "x \<in> set (note_parts w m og)" "sublist ''mal-'' x"
    using sublist_join_space [of "''mal-''" "note_parts w m og"] by auto
  from x(1) have "x \<in> set all_notes"
    using note_parts_subset [of w m og] by blast
  with x(2) have "x = mal_note" by (rule mal_marker [rotated -1])
  with x(1) show ?thesis by simp
qed

lemma confusable_iff:
  "(egoist_note \<in> set (note_parts w m og) \<longleftrightarrow> lower w = ''egoist'')
   \<and> (immigrant_note \<in> set (note_parts w m og) \<longleftrightarrow> lower w = ''immigrant'')
   \<and> (emigrant_note \<in> set (note_parts w m og) \<longleftrightarrow> lower w = ''emigrant'')
   \<and> (stationary_note \<in> set (note_parts w m og) \<longleftrightarrow> str_in ''stationary'' (lower w))
   \<and> (stationery_note \<in> set (note_parts w m og) \<longleftrightarrow> str_in ''stationery'' (lower w))"
  unfolding note_parts_def Let_def
  by (simp add: in_set_append_if in_set_origin_rule note_defs)

lemma origin_never_noted:
  "greek_note \<notin> set (note_parts w m og) \<and> latin_note \<notin> set (note_parts w m og)"
  unfolding note_parts_def Let_def
  using no_Greek [of og] no_Latin [of og]
  by (simp add: in_set_append_if in_set_origin_rule note_defs)

lemma note_parts_origin: "note_parts w m og = note_parts w m og'"
  unfolding note_parts_def Let_def by (simp only: origin_rule_lower)

lemma note_parts_casing:
  assumes "lower w' = lower w" "lower m' = lower m"
  shows "note_parts w' m' og' = note_parts w m og"
proof -
  have "note_parts w' m' og = note_parts w m og"
    unfolding note_parts_def Let_def by (simp only: assms)
  then show ?thesis using note_parts_origin [of w' m' og' og] by simp
qed

section \<open>Labels and failing records\<close>



lemma get_pos_no_sentence:
  "get_pos nlp word [] = (case nlp word of [] \<Rightarrow> Inl IndexError | t # _ \<Rightarrow> Inr (tok_pos t))"
  by (simp add: get_pos_def doc0_def split: list.splits)

lemma process_item_no_token:
  assumes "nlp (get_or (rec_word item) []) = []"
  shows "process_item nlp difficulty current_id item = Inl IndexError"
  using assms by (simp add: process_item_def Let_def get_pos_no_token)




section \<open>When a run returns\<close>

lemma main_succeeds_iff:
  "(\<exists>out. main nlp fs = Inr out) \<longleftrightarrow>
     (\<exists>easy moderate hard.
        fs ''easy-ows.json'' = Some easy \<and> fs ''moderate-ows.json'' = Some moderate
      \<and> fs ''hard-ows.json'' = Some hard
      \<and> (\<forall>item \<in> set (flatten easy @ flatten moderate @ flatten hard).
            nlp (get_or (rec_word item) []) \<noteq> []))"
  (is "?lhs \<longleftrightarrow> ?rhs")
proof
  assume ?lhs
  then obtain out where out: "main nlp fs = Inr out" by blast
  then obtain easy items1 id1 where
    f1: "fs ''easy-ows.json'' = Some easy"
    and p1: "process_items nlp ''Easy'' (flatten easy) [] 1 = Inr (items1, id1)"
    and r1: "main_loop nlp fs [(''moderate-ows.json'', ''Medium''), (''hard-ows.json'', ''Hard'')]
               ([] @ items1) id1 = Inr out"
    by (auto simp: main_def files_map_def process_file_def split: sum.splits option.splits)
  from r1 obtain moderate items2 id2 where
    f2: "fs ''moderate-ows.json'' = Some moderate"
    and p2: "process_items nlp ''Medium'' (flatten moderate) [] id1 = Inr (items2, id2)"
    and r2: "main_loop nlp fs [(''hard-ows.json'', ''Hard'')] (([] @ items1) @ items2) id2 = Inr out"
    by (auto simp: process_file_def split: sum.splits option.splits)
  from r2 obtain hard items3 id3 where
    f3: "fs ''hard-ows.json'' = Some hard"
    and p3: "process_items nlp ''Hard'' (flatten hard) [] id2 = Inr (items3, id3)"
    by (auto simp: process_file_def split: sum.splits option.splits)
  have "\<forall>item \<in> set (flatten easy). nlp (get_or (rec_word item) []) \<noteq> []"
    using p1 process_items_succeeds_iff [of nlp "''Easy''" "flatten easy" "[]" 1] by blast
  moreover have "\<forall>item \<in> set (flatten moderate). nlp (get_or (rec_word item) []) \<noteq> []"
    using p2 process_items_succeeds_iff [of nlp "''Medium''" "flatten moderate" "[]" id1] by blast
  moreover have "\<forall>item \<in> set (flatten hard). nlp (get_or (rec_word item) []) \<noteq> []"
    using p3 process_items_succeeds_iff [of nlp "''Hard''" "flatten hard" "[]" id2] by blast
  ultimately show ?rhs using f1 f2 f3 by auto
next
  assume ?rhs
  then obtain easy moderate hard where
    f: "fs ''easy-ows.json'' = Some easy" "fs ''moderate-ows.json'' = Some moderate"
       "fs ''hard-ows.json'' = Some hard"
    and tok: "\<forall>item \<in> set (flatten easy @ flatten moderate @ flatten hard).
                nlp (get_or (rec_word item) []) \<noteq> []"
    by blast
  from tok obtain items1 id1 where
    p1: "process_items nlp ''Easy'' (flatten easy) [] 1 = Inr (items1, id1)"
    using process_items_succeeds_iff [of nlp "''Easy''" "flatten easy" "[]" 1] by auto
  from tok obtain items2 id2 where
    p2: "process_items nlp ''Medium'' (flatten moderate) [] id1 = Inr (items2, id2)"
    using process_items_succeeds_iff [of nlp "''Medium''" "flatten moderate" "[]" id1] by auto
  from tok obtain items3 id3 where
    p3: "process_items nlp ''Hard'' (flatten hard) [] id2 = Inr (items3, id3)"
    using process_items_succeeds_iff [of nlp "''Hard''" "flatten hard" "[]" id2] by auto
  have "main nlp fs = Inr (([] @ items1) @ items2 @ items3)"
    using f p1 p2 p3 by (simp add: main_def files_map_def process_file_def)
  then show ?lhs by blast
qed

section \<open>The claims\<close>

text \<open>
  Claim C1. Every run of \<^verbatim>\<open>main\<close> that writes its output has read the three files in
  the order easy, moderate, hard. The output has as many entries as the three
  flattened inputs have records together. Its identifiers are the numbers 1 to \<open>n\<close>
  in that order, both as the decimal string \<^verbatim>\<open>id\<close> and as the number \<^verbatim>\<open>content.id\<close>,
  so they rise by exactly one per record across the files, and no two entries share
  an identifier. The entries keep the processing order: first the records of the easy
  file, then those of the moderate file, then those of the hard file.
\<close>

theorem main_ids_contiguous:
  assumes "main nlp fs = Inr out"
  shows "\<exists>easy moderate hard.
           fs ''easy-ows.json'' = Some easy \<and> fs ''moderate-ows.json'' = Some moderate
         \<and> fs ''hard-ows.json'' = Some hard
         \<and> length out = length (flatten easy) + length (flatten moderate) + length (flatten hard)
         \<and> map entry_id out = map str_int [1..int (length out)]
         \<and> map (\<lambda>e. content_id (entry_content e)) out = [1..int (length out)]
         \<and> distinct (map entry_id out)
         \<and> map (\<lambda>e. prop_difficulty (entry_properties e)) out
              = replicate (length (flatten easy)) ''Easy''
                @ replicate (length (flatten moderate)) ''Medium''
                @ replicate (length (flatten hard)) ''Hard''
         \<and> map (\<lambda>e. content_word (entry_content e)) out
              = map (\<lambda>item. get_or (rec_word item) [])
                  (flatten easy @ flatten moderate @ flatten hard)"
proof -
  from assms obtain easy items1 id1 where
    f1: "fs ''easy-ows.json'' = Some easy"
    and p1: "process_items nlp ''Easy'' (flatten easy) [] 1 = Inr (items1, id1)"
    and r1: "main_loop nlp fs [(''moderate-ows.json'', ''Medium''), (''hard-ows.json'', ''Hard'')]
               ([] @ items1) id1 = Inr out"
    by (auto simp: main_def files_map_def process_file_def split: sum.splits option.splits)
  from r1 obtain moderate items2 id2 where
    f2: "fs ''moderate-ows.json'' = Some moderate"
    and p2: "process_items nlp ''Medium'' (flatten moderate) [] id1 = Inr (items2, id2)"
    and r2: "main_loop nlp fs [(''hard-ows.json'', ''Hard'')] (([] @ items1) @ items2) id2 = Inr out"
    by (auto simp: process_file_def split: sum.splits option.splits)
  from r2 obtain hard items3 id3 where
    f3: "fs ''hard-ows.json'' = Some hard"
    and p3: "process_items nlp ''Hard'' (flatten hard) [] id2 = Inr (items3, id3)"
    and out: "out = (([] @ items1) @ items2) @ items3"
    by (auto simp: process_file_def split: sum.splits option.splits)
  from process_items_Inr [OF p1] obtain new1 where
    q1: "items1 = [] @ new1" "id1 = 1 + int (length (flatten easy))"
      "length new1 = length (flatten easy)"
      "map entry_id new1 = map str_int [1..id1 - 1]"
      "map (\<lambda>e. content_id (entry_content e)) new1 = [1..id1 - 1]"
      "map (\<lambda>e. prop_difficulty (entry_properties e)) new1
         = replicate (length (flatten easy)) ''Easy''"
      "map (\<lambda>e. content_word (entry_content e)) new1
         = map (\<lambda>item. get_or (rec_word item) []) (flatten easy)"
    by blast
  from process_items_Inr [OF p2] obtain new2 where
    q2: "items2 = [] @ new2" "id2 = id1 + int (length (flatten moderate))"
      "length new2 = length (flatten moderate)"
      "map entry_id new2 = map str_int [id1..id2 - 1]"
      "map (\<lambda>e. content_id (entry_content e)) new2 = [id1..id2 - 1]"
      "map (\<lambda>e. prop_difficulty (entry_properties e)) new2
         = replicate (length (flatten moderate)) ''Medium''"
      "map (\<lambda>e. content_word (entry_content e)) new2
         = map (\<lambda>item. get_or (rec_word item) []) (flatten moderate)"
    by blast
  from process_items_Inr [OF p3] obtain new3 where
    q3: "items3 = [] @ new3" "id3 = id2 + int (length (flatten hard))"
      "length new3 = length (flatten hard)"
      "map entry_id new3 = map str_int [id2..id3 - 1]"
      "map (\<lambda>e. content_id (entry_content e)) new3 = [id2..id3 - 1]"
      "map (\<lambda>e. prop_difficulty (entry_properties e)) new3
         = replicate (length (flatten hard)) ''Hard''"
      "map (\<lambda>e. content_word (entry_content e)) new3
         = map (\<lambda>item. get_or (rec_word item) []) (flatten hard)"
    by blast
  have out': "out = new1 @ new2 @ new3"
    using out q1(1) q2(1) q3(1) by simp
  have len: "length out = length (flatten easy) + length (flatten moderate) + length (flatten hard)"
    by (simp add: out' q1(3) q2(3) q3(3))
  have split: "[1..int (length out)] = [1..id1 - 1] @ [id1..id2 - 1] @ [id2..id3 - 1]"
  proof -
    have "[1..id3 - 1] = [1..id1 - 1] @ [id1..id3 - 1]"
      using q1(2) q2(2) q3(2) by (intro upto_append) simp_all
    moreover have "[id1..id3 - 1] = [id1..id2 - 1] @ [id2..id3 - 1]"
      using q1(2) q2(2) q3(2) by (intro upto_append) simp_all
    moreover have "int (length out) = id3 - 1"
      using len q1(2) q2(2) q3(2) by simp
    ultimately show ?thesis by simp
  qed
  have ids: "map entry_id out = map str_int [1..int (length out)]"
    unfolding split by (simp add: out' q1(4) q2(4) q3(4))
  have cids: "map (\<lambda>e. content_id (entry_content e)) out = [1..int (length out)]"
    unfolding split by (simp add: out' q1(5) q2(5) q3(5))
  have dist: "distinct (map entry_id out)"
    unfolding ids by (rule distinct_str_int_upto) simp
  have diffs: "map (\<lambda>e. prop_difficulty (entry_properties e)) out
              = replicate (length (flatten easy)) ''Easy''
                @ replicate (length (flatten moderate)) ''Medium''
                @ replicate (length (flatten hard)) ''Hard''"
    by (simp add: out' q1(6) q2(6) q3(6))
  have words: "map (\<lambda>e. content_word (entry_content e)) out
              = map (\<lambda>item. get_or (rec_word item) [])
                  (flatten easy @ flatten moderate @ flatten hard)"
    by (simp add: out' q1(7) q2(7) q3(7))
  from f1 f2 f3 len ids cids dist diffs words show ?thesis by blast
qed

theorem main_ids_contiguous_witness:
  "main sample_nlp sample_files \<noteq> Inl IndexError
   \<and> (\<exists>out. main sample_nlp sample_files = Inr out
         \<and> map entry_id out = [''1'', ''2'', ''3'', ''4'']
         \<and> map (\<lambda>e. content_id (entry_content e)) out = [1, 2, 3, 4]
         \<and> map (\<lambda>e. prop_difficulty (entry_properties e)) out
              = [''Easy'', ''Easy'', ''Easy'', ''Medium'']
         \<and> map (\<lambda>e. content_word (entry_content e)) out
              = [''ambitious'', ''Running'', ''Egoist'', ''Running''])"
proof -
  have "case main sample_nlp sample_files of Inl err \<Rightarrow> False | Inr out \<Rightarrow> True"
    by code_simp
  then obtain out where run: "main sample_nlp sample_files = Inr out"
    by (cases "main sample_nlp sample_files") simp_all
  from main_ids_contiguous [OF run] obtain easy moderate hard where
    f: "sample_files ''easy-ows.json'' = Some easy"
       "sample_files ''moderate-ows.json'' = Some moderate"
       "sample_files ''hard-ows.json'' = Some hard"
    and len: "length out = length (flatten easy) + length (flatten moderate) + length (flatten hard)"
    and ids: "map entry_id out = map str_int [1..int (length out)]"
    and cids: "map (\<lambda>e. content_id (entry_content e)) out = [1..int (length out)]"
    and diffs: "map (\<lambda>e. prop_difficulty (entry_properties e)) out
              = replicate (length (flatten easy)) ''Easy''
                @ replicate (length (flatten moderate)) ''Medium''
                @ replicate (length (flatten hard)) ''Hard''"
    and words: "map (\<lambda>e. content_word (entry_content e)) out
              = map (\<lambda>item. get_or (rec_word item) [])
                  (flatten easy @ flatten moderate @ flatten hard)"
    by blast
  have e: "flatten easy = [ambitious_record, running_record, egoist_record]"
    using f(1) by (auto simp: sample_files_def flatten_def)
  have m: "flatten moderate = [running_record]"
    using f(2) by (auto simp: sample_files_def flatten_def)
  have h: "flatten hard = []"
    using f(3) by (auto simp: sample_files_def flatten_def)
  have n: "length out = 4" using len e m h by simp
  have r: "[1..4] = [1, 2, 3, 4::int]" by code_simp
  have s: "map str_int [1, 2, 3, 4] = [''1'', ''2'', ''3'', ''4'']" by code_simp
  have "map entry_id out = [''1'', ''2'', ''3'', ''4'']"
    using ids n r s by simp
  moreover have "map (\<lambda>e. content_id (entry_content e)) out = [1, 2, 3, 4]"
    using cids n r by simp
  moreover have "map (\<lambda>e. prop_difficulty (entry_properties e)) out
              = [''Easy'', ''Easy'', ''Easy'', ''Medium'']"
    using diffs e m h by simp
  moreover have "map (\<lambda>e. content_word (entry_content e)) out
              = [''ambitious'', ''Running'', ''Egoist'', ''Running'']"
    using words e m h
    by (simp add: get_or_def ambitious_record_def running_record_def egoist_record_def)
  ultimately show ?thesis using run by simp
qed

text \<open>
  Claim C2. An origin that contains "Greek" should bring the Greek fragment into the
  note, and otherwise an origin that contains "Latin" the Latin fragment. The script
  looks for the capitalised literals \<^verbatim>\<open>"Greek"\<close> and \<^verbatim>\<open>"Latin"\<close> in the lower-cased
  origin, where no capital is left, so neither branch is ever taken
  (\<open>origin_never_noted\<close>). Evaluated: for the origins "Greek/Latin hybrid", "Greek",
  "Latin" and "greek", a word and a meaning that fire no other rule give the empty
  note.
\<close>

theorem greek_origin_evaluation:
  "generate_note ''zeus'' ''king of the gods'' ''Greek/Latin hybrid'' = []
   \<and> generate_note ''zeus'' ''king of the gods'' ''Greek'' = []
   \<and> generate_note ''zeus'' ''king of the gods'' ''Latin'' = []
   \<and> generate_note ''zeus'' ''king of the gods'' ''greek'' = []"
  by code_simp

text \<open>
  Claim C3. The run on the single record "ambitious" (meaning "having strong desire",
  origin "Latin") in the easy file, the other two files being empty, evaluated with
  the sample tagger. The output is one entry with id "1" and difficulty "Easy". Its
  note is the "ambi-" fragment alone: the Latin fragment is not in it.
\<close>

theorem ambitious_end_to_end:
  "main sample_nlp ambitious_files =
     Inr [\<lparr>entry_id = ''1'',
           entry_sourceInfo = \<lparr>pdfName = ''Blackbook'', examYear = 2025\<rparr>,
           entry_properties = \<lparr>prop_difficulty = ''Easy'', prop_status = ''Active''\<rparr>,
           entry_content =
             \<lparr>content_id = 1,
              content_pos = ''Noun'',
              content_word = ''ambitious'',
              content_meaning_en = ''having strong desire'',
              content_meaning_hi = [],
              content_usage_sentences = [],
              content_note = ''Prefix 'ambi-' means 'both' or 'around'.'',
              content_origin = ''Latin''\<rparr>\<rparr>]
   \<and> \<not> sublist latin_note (generate_note ''ambitious'' ''having strong desire'' ''Latin'')"
  by code_simp

text \<open>
  Claim C4. \<^verbatim>\<open>generate_note\<close> is a function of its three arguments, and of their
  lower-cased forms only: inputs that differ in casing alone give the same note. The
  fragments of a note are those rows of the rule table whose condition holds, in the
  order of the table, so they are a subsequence of the fixed list of all fragments.
  The note is these fragments joined by single spaces, nothing reordered and nothing
  dropped, and it is the empty string when no rule fires.
\<close>

theorem generate_note_fixed_order:
  "(lower w' = lower w \<and> lower m' = lower m \<and> lower og' = lower og
      \<longrightarrow> generate_note w' m' og' = generate_note w m og)
   \<and> note_parts w m og = map snd (filter fst (note_rules w m og))
   \<and> map snd (note_rules w m og) = all_notes
   \<and> subseq (note_parts w m og) all_notes
   \<and> distinct all_notes
   \<and> generate_note w m og = join '' '' (note_parts w m og)
   \<and> (note_parts w m og = [] \<longrightarrow> generate_note w m og = [])"
proof -
  have "lower w' = lower w \<and> lower m' = lower m \<and> lower og' = lower og
      \<longrightarrow> generate_note w' m' og' = generate_note w m og"
    using note_parts_casing [of w' w m' m og' og] by (simp add: generate_note_def)
  moreover have "note_parts w m og = [] \<longrightarrow> generate_note w m og = []"
    by (simp add: generate_note_def)
  ultimately show ?thesis
    using note_parts_table [of w m og] note_rules_fragments [of w m og]
      note_parts_subseq [of w m og] all_notes_distinct generate_note_join [of w m og]
    by blast
qed

theorem generate_note_fixed_order_witness:
  "lower ''AmBiTious'' = lower ''ambitious''
   \<and> lower ''Having STRONG desire'' = lower ''having strong desire''
   \<and> lower ''LATIN'' = lower ''latin''
   \<and> generate_note ''AmBiTious'' ''Having STRONG desire'' ''LATIN''
       = generate_note ''ambitious'' ''having strong desire'' ''latin''
   \<and> note_parts ''zeus'' ''king of the gods'' [] = []
   \<and> generate_note ''zeus'' ''king of the gods'' [] = []
   \<and> generate_note ''Benevolent Archbishop'' ''a lawful healer of disease'' []
       = ''Suffixes like '-cracy' or '-archy' typically refer to forms of government or rule. Prefix 'bene-' means 'good' or 'well'. Often used in medical contexts. Frequently used in legal terminology.''"
proof -
  have c: "lower ''AmBiTious'' = lower ''ambitious''
      \<and> lower ''Having STRONG desire'' = lower ''having strong desire''
      \<and> lower ''LATIN'' = lower ''latin''"
    by code_simp
  have z: "note_parts ''zeus'' ''king of the gods'' [] = []"
    by code_simp
  have b: "join '' '' (note_parts ''Benevolent Archbishop'' ''a lawful healer of disease'' [])
       = ''Suffixes like '-cracy' or '-archy' typically refer to forms of government or rule. Prefix 'bene-' means 'good' or 'well'. Often used in medical contexts. Frequently used in legal terminology.''"
    by code_simp
  from c generate_note_fixed_order
    [of "''AmBiTious''" "''ambitious''" "''Having STRONG desire''" "''having strong desire''"
        "''LATIN''" "''latin''"]
  have "generate_note ''AmBiTious'' ''Having STRONG desire'' ''LATIN''
       = generate_note ''ambitious'' ''having strong desire'' ''latin''"
    by blast
  moreover from z generate_note_fixed_order
    [of "''zeus''" "''zeus''" "''king of the gods''" "''king of the gods''" "[]" "[]"]
  have "generate_note ''zeus'' ''king of the gods'' [] = []"
    by blast
  moreover from b generate_note_fixed_order
    [of "''Benevolent Archbishop''" "''Benevolent Archbishop''" "''a lawful healer of disease''"
        "''a lawful healer of disease''" "[]" "[]"]
  have "generate_note ''Benevolent Archbishop'' ''a lawful healer of disease'' []
       = ''Suffixes like '-cracy' or '-archy' typically refer to forms of government or rule. Prefix 'bene-' means 'good' or 'well'. Often used in medical contexts. Frequently used in legal terminology.''"
    by simp
  ultimately show ?thesis using c z by blast
qed

text \<open>
  Claim C5. A record without the key "word" gets the empty string for its word, and
  its processing should still yield an entry. Evaluated with the sample tagger, which
  like spaCy returns no token for the empty text: \<^verbatim>\<open>get_pos\<close> reads \<^verbatim>\<open>nlp(word)[0]\<close> on
  every path, so the record raises \<^verbatim>\<open>IndexError\<close> and the whole run ends without
  output. (\<open>process_item_no_token\<close> and \<open>process_item_succeeds_iff\<close> give the general
  statement: a record is processed exactly when the tagger returns a token for its
  word. A missing "meaning_en" alone does no harm.)
\<close>

theorem missing_word_evaluation:
  "sample_nlp [] = []
   \<and> get_or (rec_word no_word_record) [] = []
   \<and> process_item sample_nlp ''Easy'' 1 no_word_record = Inl IndexError
   \<and> main sample_nlp no_word_files = Inl IndexError"
  by code_simp

text \<open>
  Claim C6. Flattening a mapping gives the concatenation, in the mapping's iteration
  order, of the lists found under its keys; values that are not lists contribute
  nothing. Flattening a list gives the list itself, and flattening any other content
  gives the empty sequence. The mapping with [a, b] under "1" and [c] under "2"
  flattens to [a, b, c], and the list [a, b, c] to itself.
\<close>

theorem flatten_cases:
  "flatten (Dict kvs) =
     concat (map (\<lambda>(page_num, items). case items of PageList xs \<Rightarrow> xs | PageOther \<Rightarrow> []) kvs)
   \<and> flatten (FlatList xs) = xs
   \<and> flatten OtherJson = []
   \<and> flatten (Dict [(''1'', PageList [a, b]), (''2'', PageList [c])]) = [a, b, c]
   \<and> flatten (FlatList [a, b, c]) = [a, b, c]"
  by (simp add: flatten_def extend_pages_concat)

text \<open>
  Claim C7. The "bad/evil" fragment is appended, and is a part of the returned note,
  exactly when the lower-cased word contains "mal" and does not start with "male".
  So "formal" and "female" receive it, and a word that starts with "male" does not.
\<close>

theorem mal_rule:
  "(mal_note \<in> set (note_parts w m og)
      \<longleftrightarrow> sublist ''mal'' (lower w) \<and> \<not> prefix ''male'' (lower w))
   \<and> (sublist mal_note (generate_note w m og)
      \<longleftrightarrow> sublist ''mal'' (lower w) \<and> \<not> prefix ''male'' (lower w))"
proof -
  have parts: "mal_note \<in> set (note_parts w m og)
      \<longleftrightarrow> sublist ''mal'' (lower w) \<and> \<not> prefix ''male'' (lower w)"
    using mal_iff [of w m og] by (simp add: str_in_iff_sublist startswith_iff_prefix)
  have "sublist mal_note (generate_note w m og) \<longleftrightarrow> mal_note \<in> set (note_parts w m og)"
    using emitted_in_note [of mal_note w m og] mal_note_in_note [of w m og] by blast
  with parts show ?thesis by simp
qed

theorem mal_rule_witness:
  "sublist ''mal'' (lower ''Formal'') \<and> \<not> prefix ''male'' (lower ''Formal'')
   \<and> sublist mal_note (generate_note ''Formal'' [] [])
   \<and> sublist ''mal'' (lower ''female'') \<and> \<not> prefix ''male'' (lower ''female'')
   \<and> sublist mal_note (generate_note ''female'' [] [])
   \<and> prefix ''male'' (lower ''Malevolent'')
   \<and> \<not> sublist mal_note (generate_note ''Malevolent'' [] [])
   \<and> \<not> sublist ''mal'' (lower ''ambitious'')
   \<and> \<not> sublist mal_note (generate_note ''ambitious'' [] [])"
proof -
  have a: "sublist ''mal'' (lower ''Formal'') \<and> \<not> prefix ''male'' (lower ''Formal'')"
    by code_simp
  have b: "sublist ''mal'' (lower ''female'') \<and> \<not> prefix ''male'' (lower ''female'')"
    by code_simp
  have c: "prefix ''male'' (lower ''Malevolent'')"
    by code_simp
  have d: "\<not> sublist ''mal'' (lower ''ambitious'')"
    by code_simp
  have "sublist mal_note (generate_note ''Formal'' [] [])"
    using a mal_rule [of "''Formal''" "[]" "[]"] by blast
  moreover have "sublist mal_note (generate_note ''female'' [] [])"
    using b mal_rule [of "''female''" "[]" "[]"] by blast
  moreover have "\<not> sublist mal_note (generate_note ''Malevolent'' [] [])"
    using c mal_rule [of "''Malevolent''" "[]" "[]"] by blast
  moreover have "\<not> sublist mal_note (generate_note ''ambitious'' [] [])"
    using d mal_rule [of "''ambitious''" "[]" "[]"] by blast
  ultimately show ?thesis using a b c d by blast
qed




text \<open>
  Claim C9. A word whose lower-cased form is exactly "egoist" gets the "egotist"
  fragment, exactly "immigrant" gets the "emigrant" fragment, exactly "emigrant" gets
  the "immigrant" fragment, and a word that contains "stationary" (or "stationery"),
  as it is written or after lower-casing, gets the fragment that names the other
  spelling. In each case the fragment is appended to the parts and is a part of the
  returned note.
\<close>

theorem confusable_rules:
  "(lower w = ''egoist'' \<longrightarrow>
      egoist_note \<in> set (note_parts w m og) \<and> sublist egoist_note (generate_note w m og))
   \<and> (lower w = ''immigrant'' \<longrightarrow>
      immigrant_note \<in> set (note_parts w m og) \<and> sublist immigrant_note (generate_note w m og))
   \<and> (lower w = ''emigrant'' \<longrightarrow>
      emigrant_note \<in> set (note_parts w m og) \<and> sublist emigrant_note (generate_note w m og))
   \<and> (sublist ''stationary'' w \<or> sublist ''stationary'' (lower w) \<longrightarrow>
      stationary_note \<in> set (note_parts w m og) \<and> sublist stationary_note (generate_note w m og))
   \<and> (sublist ''stationery'' w \<or> sublist ''stationery'' (lower w) \<longrightarrow>
      stationery_note \<in> set (note_parts w m og) \<and> sublist stationery_note (generate_note w m og))"
proof -
  have raw: "sublist p (lower w)" if "sublist p w" "lower p = p" for p
    using map_mono_sublist [OF that(1), of lower_char] that(2) by (simp add: lower_def)
  have "lower ''stationary'' = ''stationary''" "lower ''stationery'' = ''stationery''"
    by code_simp+
  then have "sublist ''stationary'' w \<longrightarrow> sublist ''stationary'' (lower w)"
    and "sublist ''stationery'' w \<longrightarrow> sublist ''stationery'' (lower w)"
    using raw by blast+
  then show ?thesis
    using confusable_iff [of w m og]
      emitted_in_note [of egoist_note w m og] emitted_in_note [of immigrant_note w m og]
      emitted_in_note [of emigrant_note w m og] emitted_in_note [of stationary_note w m og]
      emitted_in_note [of stationery_note w m og]
    by (simp add: str_in_iff_sublist)
qed

theorem confusable_rules_witness:
  "lower ''Egoist'' = ''egoist''
   \<and> sublist egoist_note (generate_note ''Egoist'' ''a selfish person'' ''Greek'')
   \<and> lower ''IMMIGRANT'' = ''immigrant''
   \<and> sublist immigrant_note (generate_note ''IMMIGRANT'' [] [])
   \<and> lower ''emigrant'' = ''emigrant''
   \<and> sublist emigrant_note (generate_note ''emigrant'' [] [])
   \<and> sublist ''stationary'' (lower ''Stationary bike'')
   \<and> sublist stationary_note (generate_note ''Stationary bike'' [] [])
   \<and> sublist ''stationery'' ''office stationery''
   \<and> sublist stationery_note (generate_note ''office stationery'' [] [])"
proof -
  have a: "lower ''Egoist'' = ''egoist''" by code_simp
  have b: "lower ''IMMIGRANT'' = ''immigrant''" by code_simp
  have c: "lower ''emigrant'' = ''emigrant''" by code_simp
  have d: "sublist ''stationary'' (lower ''Stationary bike'')" by code_simp
  have e: "sublist ''stationery'' ''office stationery''" by code_simp
  note r1 = confusable_rules [of "''Egoist''" "''a selfish person''" "''Greek''",
      THEN conjunct1, THEN mp, OF a, THEN conjunct2]
  note r2 = confusable_rules [of "''IMMIGRANT''" "[]" "[]",
      THEN conjunct2, THEN conjunct1, THEN mp, OF b, THEN conjunct2]
  note r3 = confusable_rules [of "''emigrant''" "[]" "[]",
      THEN conjunct2, THEN conjunct2, THEN conjunct1, THEN mp, OF c, THEN conjunct2]
  note r4 = confusable_rules [of "''Stationary bike''" "[]" "[]",
      THEN conjunct2, THEN conjunct2, THEN conjunct2, THEN conjunct1, THEN mp,
      OF disjI2, OF d, THEN conjunct2]
  note r5 = confusable_rules [of "''office stationery''" "[]" "[]",
      THEN conjunct2, THEN conjunct2, THEN conjunct2, THEN conjunct2, THEN mp,
      OF disjI1, OF e, THEN conjunct2]
  from a r1 b r2 c r3 d r4 e r5 show ?thesis
    by (intro conjI)
qed

text \<open>
  Claim C10. A record whose list of usage sentences starts with the empty string is
  resolved as a record without usage sentences: the context is the empty string, so
  \<^verbatim>\<open>get_pos\<close> returns the label of the first token of the word tagged alone (or raises
  when there is none). The result depends on the tagger through its answer for the
  word only, so no token of a sentence is looked at, and the entry gets the same
  label as for the record without usage sentences.
\<close>

theorem empty_first_sentence:
  "first_sentence_of ([] # rest) = first_sentence_of []
   \<and> get_pos nlp word (first_sentence_of ([] # rest))
       = (case nlp word of [] \<Rightarrow> Inl IndexError | t # _ \<Rightarrow> Inr (tok_pos t))
   \<and> get_pos nlp word (first_sentence_of ([] # rest)) = get_pos nlp word (first_sentence_of [])
   \<and> (nlp' word = nlp word \<longrightarrow>
        get_pos nlp' word (first_sentence_of ([] # rest))
          = get_pos nlp word (first_sentence_of ([] # rest)))
   \<and> map_sum id (\<lambda>e. content_pos (entry_content e))
        (process_item nlp difficulty current_id (item\<lparr>rec_usage_sentences := Some ([] # rest)\<rparr>))
       = map_sum id (\<lambda>e. content_pos (entry_content e))
        (process_item nlp difficulty current_id (item\<lparr>rec_usage_sentences := None\<rparr>))"
proof -
  have f: "first_sentence_of ([] # rest) = []" "first_sentence_of [] = []"
    by (simp_all add: first_sentence_of_def)
  have "map_sum id (\<lambda>e. content_pos (entry_content e))
        (process_item nlp difficulty current_id (item\<lparr>rec_usage_sentences := Some ([] # rest)\<rparr>))
       = map_sum id (\<lambda>e. content_pos (entry_content e))
        (process_item nlp difficulty current_id (item\<lparr>rec_usage_sentences := None\<rparr>))"
    by (simp add: process_item_def Let_def get_or_def f split: sum.splits)
  then show ?thesis
    by (simp add: f get_pos_no_sentence)
qed

theorem empty_first_sentence_witness:
  "rec_usage_sentences egoist_record = Some ([] # [''He is an egoist''])
   \<and> get_pos sample_nlp ''Egoist'' (first_sentence_of ([] # [''He is an egoist''])) = Inr ''NOUN''
   \<and> get_pos sample_nlp ''Egoist'' (first_sentence_of []) = Inr ''NOUN''
   \<and> get_pos (\<lambda>s. if s = ''Egoist'' then sample_nlp s else [])
         ''Egoist'' (first_sentence_of ([] # [''He is an egoist''])) = Inr ''NOUN''"
proof -
  have c: "(case sample_nlp ''Egoist'' of [] \<Rightarrow> Inl IndexError | t # _ \<Rightarrow> Inr (tok_pos t))
             = Inr ''NOUN''"
    by code_simp
  have r: "rec_usage_sentences egoist_record = Some ([] # [''He is an egoist''])"
    by (simp add: egoist_record_def)
  have n: "(\<lambda>s. if s = ''Egoist'' then sample_nlp s else []) ''Egoist'' = sample_nlp ''Egoist''"
    by simp
  note e = empty_first_sentence
    [of "[''He is an egoist'']" sample_nlp "''Egoist''"
        "\<lambda>s. if s = ''Egoist'' then sample_nlp s else []" "''Easy''" 1 egoist_record]
  note e2 = e [THEN conjunct2, THEN conjunct1]
  note e3 = e [THEN conjunct2, THEN conjunct2, THEN conjunct1]
  note e4 = e [THEN conjunct2, THEN conjunct2, THEN conjunct2, THEN conjunct1, THEN mp, OF n]
  have a: "get_pos sample_nlp ''Egoist'' (first_sentence_of ([] # [''He is an egoist'']))
             = Inr ''NOUN''"
    using e2 c by (rule trans)
  have b: "get_pos sample_nlp ''Egoist'' (first_sentence_of []) = Inr ''NOUN''"
    using e3 a by simp
  have d: "get_pos (\<lambda>s. if s = ''Egoist'' then sample_nlp s else [])
         ''Egoist'' (first_sentence_of ([] # [''He is an egoist''])) = Inr ''NOUN''"
    using e4 a by (rule trans)
  from r a b d show ?thesis by (intro conjI)
qed

end
